theory Spec2Isabelle
  imports Main
begin

section \<open>The User entity\<close>

text \<open>
  Modelled from the spec: the entity class \<^verbatim>\<open>User\<close> of \<^verbatim>\<open>domain/entities/user.ts\<close>, which
  is imported by every layer but is not among the sources. The README's listing and
  section 6 of the specification give it as
  \<^verbatim>\<open>class User { constructor(private id: string, private username: string, private password: string) {} }\<close>:
  three string properties, assigned from the constructor's arguments as they are.
  The property \<^verbatim>\<open>id\<close> is called \<open>id_field\<close> here, since \<open>id\<close> is HOL's identity function.
  TypeScript's \<^verbatim>\<open>private\<close> is erased at run time, so the database's \<^verbatim>\<open>item.id\<close> reads it.
  A TypeScript string is compared by \<^verbatim>\<open>===\<close> as a sequence of code units; it is a
  \<open>string\<close> here, compared by \<open>=\<close>.
\<close>

record User =
  id_field :: string
  username :: string
  password :: string

text \<open>
  Modelled from the spec: the constructor of \<^verbatim>\<open>User\<close>, whose parameter properties
  \<^verbatim>\<open>private id\<close>, \<^verbatim>\<open>private username\<close>, \<^verbatim>\<open>private password\<close> store the three arguments
  "verbatim, with no hashing, validation, or normalization".
\<close>

definition new_User :: "string \<Rightarrow> string \<Rightarrow> string \<Rightarrow> User" where
  "new_User i u p = \<lparr>id_field = i, username = u, password = p\<rparr>"

section \<open>Exceptions and method results\<close>

text \<open>
  The only exception the program constructs is \<^verbatim>\<open>new Error("User not found")\<close>. A method
  call is a function from the receiver's state and the arguments to a pair: the thrown
  exception (\<open>Inl\<close>) or the returned value (\<open>Inr\<close>), and the receiver's state afterwards.
\<close>

datatype error = Error string

type_synonym ('r, 's) outcome = "(error + 'r) \<times> 's"

section \<open>InMemoryDatabase\<close>

text \<open>
  \<^verbatim>\<open>Array.prototype.find\<close>, as \<^verbatim>\<open>this.store.find(...)\<close> runs it: the index \<open>k\<close> goes from
  \<open>0\<close> up to the length of the array, the first element on which the callback holds is
  returned, and \<^verbatim>\<open>undefined\<close> (\<open>None\<close>) when the index reaches the length.
\<close>

function (domintros) find_loop :: "('a \<Rightarrow> bool) \<Rightarrow> 'a list \<Rightarrow> nat \<Rightarrow> 'a option" where
  "find_loop predicate xs k =
     (if k < length xs
      then (if predicate (xs ! k) then Some (xs ! k) else find_loop predicate xs (Suc k))
      else None)"
  by pat_completeness auto
termination
  by (relation "measure (\<lambda>(predicate, xs, k). length xs - k)") auto

declare find_loop.simps [simp del]

text \<open>
  \<^verbatim>\<open>class InMemoryDatabase<T> { private store: T[] = []; ... }\<close>.
  The callback of \<^verbatim>\<open>getById\<close> is \<^verbatim>\<open>(item: any) => item.id === id\<close>; the database is
  instantiated at \<^verbatim>\<open>User\<close> only, whose \<^verbatim>\<open>id\<close> is a string, so the lookup is typed at
  \<open>User\<close>. Neither method has a \<^verbatim>\<open>throw\<close>; \<^verbatim>\<open>getById\<close> assigns nothing.
  The array is a list of any length: the engine's bounds on the length of an array and
  on memory are outside the model.
\<close>

record 'a InMemoryDatabase =
  store :: "'a list"

definition new_InMemoryDatabase :: "'a InMemoryDatabase" where
  "new_InMemoryDatabase = \<lparr>store = []\<rparr>"

definition InMemoryDatabase_getById ::
  "User InMemoryDatabase \<Rightarrow> string \<Rightarrow> (User option, User InMemoryDatabase) outcome" where
  "InMemoryDatabase_getById this i =
     (Inr (find_loop (\<lambda>item. id_field item = i) (store this) 0), this)"

definition InMemoryDatabase_add ::
  "'a InMemoryDatabase \<Rightarrow> 'a \<Rightarrow> (unit, 'a InMemoryDatabase) outcome" where
  "InMemoryDatabase_add this item = (Inr (), this\<lparr>store := store this @ [item]\<rparr>)"

section \<open>UserRepositoryImpl\<close>

text \<open>
  \<^verbatim>\<open>if (!user) { throw new Error("User not found"); } return user;\<close>: a \<^verbatim>\<open>User\<close> object is
  truthy, so \<^verbatim>\<open>!user\<close> holds exactly when the database returned \<^verbatim>\<open>undefined\<close>.
  An exception of the callee would pass through the caller (the \<open>Inl\<close> branch).
\<close>

record UserRepositoryImpl =
  database :: "User InMemoryDatabase"

definition new_UserRepositoryImpl :: UserRepositoryImpl where
  "new_UserRepositoryImpl = \<lparr>database = new_InMemoryDatabase\<rparr>"

definition UserRepositoryImpl_getById ::
  "UserRepositoryImpl \<Rightarrow> string \<Rightarrow> (User, UserRepositoryImpl) outcome" where
  "UserRepositoryImpl_getById this i =
     (case InMemoryDatabase_getById (database this) i of
        (Inl e, db) \<Rightarrow> (Inl e, this\<lparr>database := db\<rparr>)
      | (Inr user, db) \<Rightarrow>
          (case user of
             None \<Rightarrow> (Inl (Error ''User not found''), this\<lparr>database := db\<rparr>)
           | Some u \<Rightarrow> (Inr u, this\<lparr>database := db\<rparr>)))"

definition UserRepositoryImpl_add ::
  "UserRepositoryImpl \<Rightarrow> User \<Rightarrow> (unit, UserRepositoryImpl) outcome" where
  "UserRepositoryImpl_add this user =
     (case InMemoryDatabase_add (database this) user of
        (res, db) \<Rightarrow> (res, this\<lparr>database := db\<rparr>))"

section \<open>UserService, UserApplicationService, UserController\<close>

text \<open>
  \<^verbatim>\<open>UserService\<close> holds a \<^verbatim>\<open>UserRepositoryInterface\<close>; its one implementation, and the one
  \<^verbatim>\<open>main.ts\<close> passes in, is \<^verbatim>\<open>UserRepositoryImpl\<close>. Each object is referenced by the next
  layer only, so each layer's state contains the state of the layer below.
\<close>

record UserService =
  userRepository :: UserRepositoryImpl

definition new_UserService :: "UserRepositoryImpl \<Rightarrow> UserService" where
  "new_UserService r = \<lparr>userRepository = r\<rparr>"

definition UserService_getUser :: "UserService \<Rightarrow> string \<Rightarrow> (User, UserService) outcome" where
  "UserService_getUser this i =
     (case UserRepositoryImpl_getById (userRepository this) i of
        (res, r) \<Rightarrow> (res, this\<lparr>userRepository := r\<rparr>))"

definition UserService_createUser :: "UserService \<Rightarrow> User \<Rightarrow> (unit, UserService) outcome" where
  "UserService_createUser this user =
     (case UserRepositoryImpl_add (userRepository this) user of
        (res, r) \<Rightarrow> (res, this\<lparr>userRepository := r\<rparr>))"

record UserApplicationService =
  userService :: UserService

definition new_UserApplicationService :: "UserService \<Rightarrow> UserApplicationService" where
  "new_UserApplicationService s = \<lparr>userService = s\<rparr>"

definition UserApplicationService_getUser ::
  "UserApplicationService \<Rightarrow> string \<Rightarrow> (User, UserApplicationService) outcome" where
  "UserApplicationService_getUser this i =
     (case UserService_getUser (userService this) i of
        (res, s) \<Rightarrow> (res, this\<lparr>userService := s\<rparr>))"

definition UserApplicationService_createUser ::
  "UserApplicationService \<Rightarrow> User \<Rightarrow> (unit, UserApplicationService) outcome" where
  "UserApplicationService_createUser this user =
     (case UserService_createUser (userService this) user of
        (res, s) \<Rightarrow> (res, this\<lparr>userService := s\<rparr>))"

record UserController =
  userApplicationService :: UserApplicationService

definition new_UserController :: "UserApplicationService \<Rightarrow> UserController" where
  "new_UserController a = \<lparr>userApplicationService = a\<rparr>"

definition UserController_getUser ::
  "UserController \<Rightarrow> string \<Rightarrow> (User, UserController) outcome" where
  "UserController_getUser this i =
     (case UserApplicationService_getUser (userApplicationService this) i of
        (res, a) \<Rightarrow> (res, this\<lparr>userApplicationService := a\<rparr>))"

definition UserController_createUser ::
  "UserController \<Rightarrow> string \<Rightarrow> string \<Rightarrow> string \<Rightarrow> (unit, UserController) outcome" where
  "UserController_createUser this i username' password' =
     (let user = new_User i username' password'
      in case UserApplicationService_createUser (userApplicationService this) user of
           (res, a) \<Rightarrow> (res, this\<lparr>userApplicationService := a\<rparr>))"

text \<open>The objects \<^verbatim>\<open>main.ts\<close> constructs (the field names being taken, with a prefix).\<close>

definition main_userRepository :: UserRepositoryImpl where
  "main_userRepository = new_UserRepositoryImpl"

definition main_userService :: UserService where
  "main_userService = new_UserService main_userRepository"

definition main_userApplicationService :: UserApplicationService where
  "main_userApplicationService = new_UserApplicationService main_userService"

definition main_userController :: UserController where
  "main_userController = new_UserController main_userApplicationService"

text \<open>
  The repository inside a controller, and the controller built around a repository as
  \<^verbatim>\<open>main.ts\<close> builds it; they are used to state what the layers forward.
\<close>

definition repository_of :: "UserController \<Rightarrow> UserRepositoryImpl" where
  "repository_of c = userRepository (userService (userApplicationService c))"

definition controller_on :: "UserRepositoryImpl \<Rightarrow> UserController" where
  "controller_on r = new_UserController (new_UserApplicationService (new_UserService r))"

section \<open>Sequences of repository calls\<close>

text \<open>
  A caller's history of calls on the repository, to state properties of "every record
  ever inserted": each call is run on the state its predecessor left, whatever it
  returned or threw.
\<close>

datatype call = Add User | GetById string

fun perform :: "UserRepositoryImpl \<Rightarrow> call \<Rightarrow> UserRepositoryImpl" where
  "perform r (Add u) = snd (UserRepositoryImpl_add r u)"
| "perform r (GetById i) = snd (UserRepositoryImpl_getById r i)"

definition run :: "UserRepositoryImpl \<Rightarrow> call list \<Rightarrow> UserRepositoryImpl" where
  "run r cs = foldl perform r cs"

fun inserted :: "call list \<Rightarrow> User list" where
  "inserted [] = []"
| "inserted (Add u # cs) = u # inserted cs"
| "inserted (GetById i # cs) = inserted cs"

section \<open>Basic facts\<close>

lemma find_loop_drop: "find_loop P xs k = find P (drop k xs)"
proof (induction P xs k rule: find_loop.induct)
  case (1 predicate xs k)
  show ?case
  proof (cases "k < length xs")
    case True
    then have d: "drop k xs = xs ! k # drop (Suc k) xs"
      by (simp add: Cons_nth_drop_Suc)
    show ?thesis
      using True "1.IH" by (subst find_loop.simps) (simp add: d)
  next
    case False
    then show ?thesis
      by (subst find_loop.simps) simp
  qed
qed

lemma find_loop_find: "find_loop P xs 0 = find P xs"
  by (simp add: find_loop_drop)

lemma db_getById_find:
  "InMemoryDatabase_getById db i = (Inr (find (\<lambda>item. id_field item = i) (store db)), db)"
  by (simp add: InMemoryDatabase_getById_def find_loop_find)

lemma repo_getById_find:
  "UserRepositoryImpl_getById r i =
     (case find (\<lambda>item. id_field item = i) (store (database r)) of
        None \<Rightarrow> Inl (Error ''User not found'')
      | Some u \<Rightarrow> Inr u, r)"
  by (simp add: UserRepositoryImpl_getById_def db_getById_find split: option.split)

lemma repo_add_store:
  "UserRepositoryImpl_add r u = (Inr (), \<lparr>database = \<lparr>store = store (database r) @ [u]\<rparr>\<rparr>)"
  by (simp add: UserRepositoryImpl_add_def InMemoryDatabase_add_def)

lemma perform_store:
  "store (database (perform r c)) =
     store (database r) @ (case c of Add u \<Rightarrow> [u] | GetById i \<Rightarrow> [])"
  by (cases c) (simp_all add: repo_add_store repo_getById_find)

lemma run_store: "store (database (run r cs)) = store (database r) @ inserted cs"
  unfolding run_def
proof (induction cs arbitrary: r)
  case Nil
  show ?case by simp
next
  case (Cons c cs)
  show ?case
    using perform_store [of r c] by (cases c) (simp_all add: Cons.IH)
qed

lemma find_first_match:
  "\<forall>v \<in> set pre. \<not> P v \<Longrightarrow> P u \<Longrightarrow> find P (pre @ u # post) = Some u"
  by (induction pre) simp_all

lemma find_loop_terminates: "find_loop_dom (P, xs, k)"
proof (induction "length xs - k" arbitrary: k)
  case 0
  then have "\<not> k < length xs"
    by simp
  then show ?case
    by (auto intro: find_loop.domintros)
next
  case (Suc n)
  show ?case
  proof (rule find_loop.domintros)
    assume "k < length xs"
    with Suc.hyps(2) have "n = length xs - Suc k"
      by simp
    then show "find_loop_dom (P, xs, Suc k)"
      by (rule Suc.hyps(1))
  qed
qed

lemma controller_on_repository_of: "controller_on (repository_of c) = c"
  by (simp add: controller_on_def repository_of_def new_UserController_def
      new_UserApplicationService_def new_UserService_def)

lemma repository_of_controller_on: "repository_of (controller_on r) = r"
  by (simp add: controller_on_def repository_of_def new_UserController_def
      new_UserApplicationService_def new_UserService_def)

lemma service_getUser_forwards:
  "UserService_getUser (new_UserService r) i =
     apsnd new_UserService (UserRepositoryImpl_getById r i)"
  by (simp add: UserService_getUser_def new_UserService_def split: prod.split)

lemma service_createUser_forwards:
  "UserService_createUser (new_UserService r) u =
     apsnd new_UserService (UserRepositoryImpl_add r u)"
  by (simp add: UserService_createUser_def new_UserService_def split: prod.split)

lemma application_getUser_forwards:
  "UserApplicationService_getUser (new_UserApplicationService (new_UserService r)) i =
     apsnd (new_UserApplicationService \<circ> new_UserService) (UserRepositoryImpl_getById r i)"
  by (cases "UserRepositoryImpl_getById r i")
    (simp add: UserApplicationService_getUser_def new_UserApplicationService_def
      service_getUser_forwards)

lemma application_createUser_forwards:
  "UserApplicationService_createUser (new_UserApplicationService (new_UserService r)) u =
     apsnd (new_UserApplicationService \<circ> new_UserService) (UserRepositoryImpl_add r u)"
  by (cases "UserRepositoryImpl_add r u")
    (simp add: UserApplicationService_createUser_def new_UserApplicationService_def
      service_createUser_forwards)

lemma controller_getUser_forwards:
  "UserController_getUser (controller_on r) i =
     apsnd controller_on (UserRepositoryImpl_getById r i)"
  by (cases "UserRepositoryImpl_getById r i")
    (simp add: UserController_getUser_def controller_on_def new_UserController_def
      application_getUser_forwards)

lemma controller_createUser_forwards:
  "UserController_createUser (controller_on r) i n s =
     apsnd controller_on (UserRepositoryImpl_add r (new_User i n s))"
  by (cases "UserRepositoryImpl_add r (new_User i n s)")
    (simp add: UserController_createUser_def controller_on_def new_UserController_def
      application_createUser_forwards)

section \<open>The claims\<close>

text \<open>
  Claim C1, as stated: every record \<open>r\<close> inserted via \<^verbatim>\<open>add\<close> is what a subsequent
  \<^verbatim>\<open>getById(r.id)\<close> returns. It fails when an earlier record has the same identifier:
  after inserting a first record with identifier "1" and then a second, different
  record with identifier "1", \<^verbatim>\<open>getById("1")\<close> returns the first one, not the record
  just inserted.
\<close>

theorem add_then_getById_counterexample:
  "fst (UserRepositoryImpl_getById
          (snd (UserRepositoryImpl_add
             (snd (UserRepositoryImpl_add new_UserRepositoryImpl
                \<lparr>id_field = ''1'', username = ''first'', password = ''a''\<rparr>))
             \<lparr>id_field = ''1'', username = ''second'', password = ''b''\<rparr>))
          (id_field \<lparr>id_field = ''1'', username = ''second'', password = ''b''\<rparr>))
     \<noteq> Inr \<lparr>id_field = ''1'', username = ''second'', password = ''b''\<rparr>"
  by (simp add: repo_getById_find repo_add_store new_UserRepositoryImpl_def
      new_InMemoryDatabase_def)

text \<open>
  Claim C1, amended: for every record \<open>u\<close> inserted via \<^verbatim>\<open>add\<close> into a store that holds
  no record with the identifier of \<open>u\<close>, every subsequent \<^verbatim>\<open>getById\<close> of that identifier
  returns \<open>u\<close>, whatever inserts (of any records) and lookups come in between.
\<close>

theorem add_then_getById_returns_record:
  assumes "id_field u \<notin> id_field ` set (store (database r))"
  shows "fst (UserRepositoryImpl_getById (run (snd (UserRepositoryImpl_add r u)) cs) (id_field u))
           = Inr u"
proof -
  have "store (database (run (snd (UserRepositoryImpl_add r u)) cs))
          = store (database r) @ u # inserted cs"
    by (simp add: run_store repo_add_store)
  moreover have "\<forall>v \<in> set (store (database r)). id_field v \<noteq> id_field u"
    using assms by (metis imageI)
  ultimately have
    "find (\<lambda>item. id_field item = id_field u)
       (store (database (run (snd (UserRepositoryImpl_add r u)) cs))) = Some u"
    by (simp add: find_first_match)
  then show ?thesis
    by (simp add: repo_getById_find)
qed

theorem add_then_getById_returns_record_witness:
  "fst (UserRepositoryImpl_getById
          (run (snd (UserRepositoryImpl_add
                  \<lparr>database = \<lparr>store = [\<lparr>id_field = ''2'', username = ''user2'', password = ''password2''\<rparr>]\<rparr>\<rparr>
                  \<lparr>id_field = ''1'', username = ''user1'', password = ''password1''\<rparr>))
             [Add \<lparr>id_field = ''3'', username = ''user3'', password = ''password3''\<rparr>,
              GetById ''4'',
              Add \<lparr>id_field = ''1'', username = ''later'', password = ''other''\<rparr>])
          ''1'')
     = Inr \<lparr>id_field = ''1'', username = ''user1'', password = ''password1''\<rparr>"
proof -
  let ?r = "\<lparr>database = \<lparr>store = [\<lparr>id_field = ''2'', username = ''user2'', password = ''password2''\<rparr>]\<rparr>\<rparr>"
  let ?u = "\<lparr>id_field = ''1'', username = ''user1'', password = ''password1''\<rparr>"
  have fresh: "id_field ?u \<notin> id_field ` set (store (database ?r))"
    by simp
  show ?thesis
    using add_then_getById_returns_record [OF fresh] by simp
qed

text \<open>
  Claim C2. \<^verbatim>\<open>getById(id)\<close> throws the error "User not found" exactly when no record of
  the store has the identifier \<open>id\<close>; after any history of calls on a new repository,
  that is exactly when no record with that identifier was ever inserted. On the empty
  store of a new repository it throws for every identifier. The failure is the thrown
  error (\<open>Inl\<close>), not a returned value.
\<close>

theorem getById_not_found_iff_never_inserted:
  "(fst (UserRepositoryImpl_getById r i) = Inl (Error ''User not found'')
      \<longleftrightarrow> i \<notin> id_field ` set (store (database r)))
   \<and> (fst (UserRepositoryImpl_getById (run new_UserRepositoryImpl cs) i)
         = Inl (Error ''User not found'')
      \<longleftrightarrow> i \<notin> id_field ` set (inserted cs))
   \<and> fst (UserRepositoryImpl_getById new_UserRepositoryImpl i) = Inl (Error ''User not found'')"
proof -
  have general: "fst (UserRepositoryImpl_getById q i) = Inl (Error ''User not found'')
      \<longleftrightarrow> i \<notin> id_field ` set (store (database q))" for q
  proof (cases "find (\<lambda>item. id_field item = i) (store (database q))")
    case None
    then have "i \<notin> id_field ` set (store (database q))"
      by (auto simp: find_None_iff)
    with None show ?thesis
      by (simp add: repo_getById_find)
  next
    case (Some u)
    then have "u \<in> set (store (database q)) \<and> id_field u = i"
      by (auto simp: find_Some_iff)
    with Some show ?thesis
      by (auto simp: repo_getById_find)
  qed
  have history: "store (database (run new_UserRepositoryImpl cs)) = inserted cs"
    by (simp add: run_store new_UserRepositoryImpl_def new_InMemoryDatabase_def)
  have empty: "store (database new_UserRepositoryImpl) = []"
    by (simp add: new_UserRepositoryImpl_def new_InMemoryDatabase_def)
  show ?thesis
    using general [of r] general [of "run new_UserRepositoryImpl cs"]
      general [of new_UserRepositoryImpl]
    by (simp add: history empty)
qed

text \<open>
  Claim C3. Inserting a record throws nothing, whatever its identifier, so also when the
  identifier is already in the store; and \<^verbatim>\<open>getById\<close> returns the first record, in
  insertion order, that has the identifier: if \<open>u\<close> is in the store and no record
  before it has its identifier, then whatever records follow it (also records with the
  same identifier), \<^verbatim>\<open>getById\<close> returns \<open>u\<close>, and it still does after any further
  record \<open>w\<close> is added.
\<close>

theorem first_inserted_of_equal_ids_is_returned:
  "fst (UserRepositoryImpl_add r w) = Inr ()
   \<and> (store (database r) = pre @ u # post \<and> (\<forall>v \<in> set pre. id_field v \<noteq> id_field u) \<longrightarrow>
        fst (UserRepositoryImpl_getById r (id_field u)) = Inr u
        \<and> fst (UserRepositoryImpl_getById (snd (UserRepositoryImpl_add r w)) (id_field u))
            = Inr u)"
proof -
  let ?P = "\<lambda>item. id_field item = id_field u"
  have succeeds: "fst (UserRepositoryImpl_add r w) = Inr ()"
    by (simp add: repo_add_store)
  have first: "fst (UserRepositoryImpl_getById r (id_field u)) = Inr u
        \<and> fst (UserRepositoryImpl_getById (snd (UserRepositoryImpl_add r w)) (id_field u))
            = Inr u"
    if shape: "store (database r) = pre @ u # post"
      and earlier: "\<forall>v \<in> set pre. id_field v \<noteq> id_field u"
  proof -
    have before: "find ?P (store (database r)) = Some u"
      using shape earlier by (simp add: find_first_match)
    have "store (database (snd (UserRepositoryImpl_add r w))) = pre @ u # (post @ [w])"
      using shape by (simp add: repo_add_store)
    then have after: "find ?P (store (database (snd (UserRepositoryImpl_add r w)))) = Some u"
      using earlier by (simp add: find_first_match)
    show ?thesis
      by (simp add: repo_getById_find before after)
  qed
  from succeeds first show ?thesis
    by blast
qed

theorem first_inserted_of_equal_ids_is_returned_witness:
  "fst (UserRepositoryImpl_getById
          (run new_UserRepositoryImpl
             [Add \<lparr>id_field = ''1'', username = ''first'', password = ''a''\<rparr>,
              Add \<lparr>id_field = ''1'', username = ''second'', password = ''b''\<rparr>])
          ''1'')
     = Inr \<lparr>id_field = ''1'', username = ''first'', password = ''a''\<rparr>
   \<and> fst (UserRepositoryImpl_add
          (run new_UserRepositoryImpl
             [Add \<lparr>id_field = ''1'', username = ''first'', password = ''a''\<rparr>])
          \<lparr>id_field = ''1'', username = ''second'', password = ''b''\<rparr>)
     = Inr ()"
proof -
  let ?a = "\<lparr>id_field = ''1'', username = ''first'', password = ''a''\<rparr>"
  let ?b = "\<lparr>id_field = ''1'', username = ''second'', password = ''b''\<rparr>"
  have two: "store (database (run new_UserRepositoryImpl [Add ?a, Add ?b])) = [] @ ?a # [?b]"
    by (simp add: run_store new_UserRepositoryImpl_def new_InMemoryDatabase_def)
  have one: "store (database (run new_UserRepositoryImpl [Add ?a])) = [] @ ?a # []"
    by (simp add: run_store new_UserRepositoryImpl_def new_InMemoryDatabase_def)
  show ?thesis
    using first_inserted_of_equal_ids_is_returned
        [where r = "run new_UserRepositoryImpl [Add ?a, Add ?b]" and pre = "[]" and u = ?a
           and post = "[?b]" and w = ?b]
      first_inserted_of_equal_ids_is_returned
        [where r = "run new_UserRepositoryImpl [Add ?a]" and pre = "[]" and u = ?a
           and post = "[]" and w = ?b]
      two one
    by simp
qed

text \<open>
  Claim C4. For every store state and every record, \<^verbatim>\<open>add\<close> succeeds: it returns
  (\<open>Inr ()\<close>) and throws nothing, and the state it leaves is the state before with the
  record appended to the end of \<open>store\<close> and nothing else changed. This holds of the
  database's \<^verbatim>\<open>add\<close> and of the repository's, which forwards to it.
\<close>

theorem add_appends_and_succeeds:
  "InMemoryDatabase_add db item = (Inr (), db\<lparr>store := store db @ [item]\<rparr>)
   \<and> UserRepositoryImpl_add r u =
       (Inr (), r\<lparr>database := (database r)\<lparr>store := store (database r) @ [u]\<rparr>\<rparr>)"
  by (simp add: InMemoryDatabase_add_def UserRepositoryImpl_add_def)

text \<open>
  Claim C5. The store never removes a record: after any sequence of \<^verbatim>\<open>add\<close> and
  \<^verbatim>\<open>getById\<close> calls, the store is what it was before, followed by the records added, in
  the order of their insertion. So from the empty store of a new repository the store
  holds exactly the inserted records, and from any state every earlier record and every
  inserted record is still there.
\<close>

theorem inserted_records_are_kept:
  "store (database (run r cs)) = store (database r) @ inserted cs
   \<and> store (database (run new_UserRepositoryImpl cs)) = inserted cs
   \<and> set (store (database r)) \<union> set (inserted cs) \<subseteq> set (store (database (run r cs)))"
  by (simp add: run_store new_UserRepositoryImpl_def new_InMemoryDatabase_def)

text \<open>
  Claim C6. The layers above the repository only forward. On a controller, an
  application service or a domain service built around a repository \<open>r\<close>, \<^verbatim>\<open>getUser(id)\<close>
  gives the result of \<^verbatim>\<open>r.getById(id)\<close>, the thrown "User not found" included, and
  leaves the layers around the state \<^verbatim>\<open>r.getById(id)\<close> leaves; \<^verbatim>\<open>createUser\<close> gives the
  result of \<^verbatim>\<open>r.add\<close> of the record (for the controller, of the record it constructs
  from its three arguments) and leaves the layers around the state \<^verbatim>\<open>r.add\<close> leaves.
  Every controller is the controller around its repository.
\<close>

theorem layers_only_forward:
  "UserService_getUser (new_UserService r) i
     = apsnd new_UserService (UserRepositoryImpl_getById r i)
   \<and> UserApplicationService_getUser (new_UserApplicationService (new_UserService r)) i
     = apsnd (new_UserApplicationService \<circ> new_UserService) (UserRepositoryImpl_getById r i)
   \<and> UserController_getUser (controller_on r) i
     = apsnd controller_on (UserRepositoryImpl_getById r i)
   \<and> UserService_createUser (new_UserService r) u
     = apsnd new_UserService (UserRepositoryImpl_add r u)
   \<and> UserApplicationService_createUser (new_UserApplicationService (new_UserService r)) u
     = apsnd (new_UserApplicationService \<circ> new_UserService) (UserRepositoryImpl_add r u)
   \<and> UserController_createUser (controller_on r) i n s
     = apsnd controller_on (UserRepositoryImpl_add r (new_User i n s))
   \<and> controller_on (repository_of c) = c
   \<and> new_UserService (userRepository sv) = sv
   \<and> new_UserApplicationService (new_UserService (userRepository (userService a))) = a"
proof -
  have "new_UserService (userRepository sv) = sv"
    by (simp add: new_UserService_def)
  moreover have
    "new_UserApplicationService (new_UserService (userRepository (userService a))) = a"
    by (simp add: new_UserService_def new_UserApplicationService_def)
  ultimately show ?thesis
    by (simp only: service_getUser_forwards application_getUser_forwards
        controller_getUser_forwards service_createUser_forwards
        application_createUser_forwards controller_createUser_forwards
        controller_on_repository_of simp_thms)
qed

text \<open>
  Claim C7. \<^verbatim>\<open>createUser(id, name, secret)\<close> returns normally for every three strings
  (nothing is validated) and appends the record with exactly those three field values,
  unchanged, to the store. When the store had no record with identifier \<open>id\<close>,
  \<^verbatim>\<open>getById(id)\<close> on the repository and \<^verbatim>\<open>getUser(id)\<close> on the controller then return
  exactly that record.
\<close>

theorem createUser_stores_fields_verbatim:
  "fst (UserController_createUser c i n s) = Inr ()
   \<and> store (database (repository_of (snd (UserController_createUser c i n s))))
       = store (database (repository_of c)) @ [\<lparr>id_field = i, username = n, password = s\<rparr>]
   \<and> (i \<notin> id_field ` set (store (database (repository_of c))) \<longrightarrow>
        fst (UserRepositoryImpl_getById
               (repository_of (snd (UserController_createUser c i n s))) i)
          = Inr \<lparr>id_field = i, username = n, password = s\<rparr>
        \<and> fst (UserController_getUser (snd (UserController_createUser c i n s)) i)
          = Inr \<lparr>id_field = i, username = n, password = s\<rparr>)"
proof -
  let ?u = "\<lparr>id_field = i, username = n, password = s\<rparr>"
  let ?r = "repository_of c"
  let ?r' = "snd (UserRepositoryImpl_add ?r ?u)"
  have "UserController_createUser (controller_on ?r) i n s
          = apsnd controller_on (UserRepositoryImpl_add ?r (new_User i n s))"
    by (rule controller_createUser_forwards)
  then have created: "UserController_createUser c i n s = (Inr (), controller_on ?r')"
    by (simp add: controller_on_repository_of new_User_def repo_add_store)
  have stored: "store (database ?r') = store (database ?r) @ ?u # []"
    by (simp add: repo_add_store)
  have fresh: "fst (UserRepositoryImpl_getById ?r' i) = Inr ?u
        \<and> fst (UserController_getUser (controller_on ?r') i) = Inr ?u"
    if "i \<notin> id_field ` set (store (database ?r))"
  proof -
    from that have "\<forall>v \<in> set (store (database ?r)). id_field v \<noteq> i"
      by auto
    then have "find (\<lambda>item. id_field item = i) (store (database ?r')) = Some ?u"
      unfolding stored by (simp add: find_first_match)
    then have found: "UserRepositoryImpl_getById ?r' i = (Inr ?u, ?r')"
      by (simp add: repo_getById_find)
    then show ?thesis
      by (simp add: controller_getUser_forwards)
  qed
  from created stored fresh show ?thesis
    by (simp add: repository_of_controller_on)
qed

theorem createUser_stores_fields_verbatim_witness:
  "''1'' \<notin> id_field ` set (store (database (repository_of main_userController)))
   \<and> fst (UserController_getUser
          (snd (UserController_createUser main_userController ''1'' ''user1'' ''password1''))
          ''1'')
     = Inr \<lparr>id_field = ''1'', username = ''user1'', password = ''password1''\<rparr>
   \<and> fst (UserRepositoryImpl_getById
          (repository_of
             (snd (UserController_createUser main_userController ''1'' ''user1'' ''password1'')))
          ''1'')
     = Inr \<lparr>id_field = ''1'', username = ''user1'', password = ''password1''\<rparr>"
proof -
  have fresh: "''1'' \<notin> id_field ` set (store (database (repository_of main_userController)))"
    by (simp add: repository_of_def main_userController_def main_userApplicationService_def
        main_userService_def main_userRepository_def new_UserController_def
        new_UserApplicationService_def new_UserService_def new_UserRepositoryImpl_def
        new_InMemoryDatabase_def)
  show ?thesis
    using fresh createUser_stores_fields_verbatim
        [where c = main_userController and i = "''1''" and n = "''user1''"
           and s = "''password1''"]
    by simp
qed

text \<open>
  Claim C8. Every call of insert and of lookup runs to completion. The only loop is the
  scan of \<^verbatim>\<open>find\<close>: from every callback, every (finite) array and every index its
  recursion is well-founded, the index moving towards the length of the array. So for
  every store and identifier the lookup returns an outcome, and for every store and
  record the insert returns, at the database and at the repository.
\<close>

theorem insert_and_lookup_terminate:
  "find_loop_dom (P, xs, k)
   \<and> (\<exists>v. InMemoryDatabase_getById db i = (Inr v, db))
   \<and> (\<exists>db'. InMemoryDatabase_add db2 item = (Inr (), db'))
   \<and> (\<exists>res. UserRepositoryImpl_getById r i = (res, r))
   \<and> (\<exists>r'. UserRepositoryImpl_add r u = (Inr (), r'))"
  by (simp add: find_loop_terminates db_getById_find repo_getById_find repo_add_store
      InMemoryDatabase_add_def)

text \<open>
  Claim C9. \<^verbatim>\<open>getById\<close> never modifies the store: for every state and every identifier,
  the state after the call is the state before it, both when a record is returned and
  when "User not found" is thrown. This holds of the database's lookup and of the
  repository's.
\<close>

theorem getById_leaves_state:
  "snd (InMemoryDatabase_getById db i) = db
   \<and> snd (UserRepositoryImpl_getById r i) = r"
  by (simp add: db_getById_find repo_getById_find)

text \<open>
  Claim C10. The database's lookup is total: for every store and identifier it returns
  an optional record and throws nothing, and it returns \<^verbatim>\<open>undefined\<close> (\<open>None\<close>) when no
  record has the identifier. When some record of the store has the identifier, the
  database does not return \<^verbatim>\<open>undefined\<close>, so the repository's \<^verbatim>\<open>getById\<close> does not reach
  its \<^verbatim>\<open>throw\<close>: it returns a record with that identifier.
\<close>

theorem lookup_total_and_throw_unreachable_on_hit:
  "(\<exists>v. InMemoryDatabase_getById db j = (Inr v, db))
   \<and> (j \<notin> id_field ` set (store db) \<longrightarrow> fst (InMemoryDatabase_getById db j) = Inr None)
   \<and> (i \<in> id_field ` set (store (database r)) \<longrightarrow>
        fst (InMemoryDatabase_getById (database r) i) \<noteq> Inr None
        \<and> fst (UserRepositoryImpl_getById r i) \<noteq> Inl (Error ''User not found'')
        \<and> (\<exists>u. fst (UserRepositoryImpl_getById r i) = Inr u \<and> id_field u = i))"
proof -
  have total: "\<exists>v. InMemoryDatabase_getById db j = (Inr v, db)"
    by (simp add: db_getById_find)
  have miss: "fst (InMemoryDatabase_getById db j) = Inr None"
    if "j \<notin> id_field ` set (store db)"
  proof -
    from that have "find (\<lambda>item. id_field item = j) (store db) = None"
      by (auto simp: find_None_iff)
    then show ?thesis
      by (simp add: db_getById_find)
  qed
  have hit: "fst (InMemoryDatabase_getById (database r) i) \<noteq> Inr None
        \<and> fst (UserRepositoryImpl_getById r i) \<noteq> Inl (Error ''User not found'')
        \<and> (\<exists>u. fst (UserRepositoryImpl_getById r i) = Inr u \<and> id_field u = i)"
    if "i \<in> id_field ` set (store (database r))"
  proof -
    from that have "find (\<lambda>item. id_field item = i) (store (database r)) \<noteq> None"
      by (auto simp: find_None_iff)
    then obtain u where u: "find (\<lambda>item. id_field item = i) (store (database r)) = Some u"
      by blast
    then have "id_field u = i"
      by (auto simp: find_Some_iff)
    with u show ?thesis
      by (simp add: db_getById_find repo_getById_find)
  qed
  from total miss hit show ?thesis
    by blast
qed

theorem lookup_total_and_throw_unreachable_on_hit_witness:
  "''1'' \<notin> id_field ` set (store \<lparr>store = []\<rparr>)
   \<and> fst (InMemoryDatabase_getById \<lparr>store = []\<rparr> ''1'') = Inr None
   \<and> ''1'' \<in> id_field ` set (store (database
         \<lparr>database = \<lparr>store = [\<lparr>id_field = ''1'', username = ''user1'', password = ''password1''\<rparr>]\<rparr>\<rparr>))
   \<and> fst (UserRepositoryImpl_getById
         \<lparr>database = \<lparr>store = [\<lparr>id_field = ''1'', username = ''user1'', password = ''password1''\<rparr>]\<rparr>\<rparr>
         ''1'') \<noteq> Inl (Error ''User not found'')"
  using lookup_total_and_throw_unreachable_on_hit
    [of "\<lparr>store = []\<rparr>" "''1''" "''1''"
        "\<lparr>database = \<lparr>store = [\<lparr>id_field = ''1'', username = ''user1'', password = ''password1''\<rparr>]\<rparr>\<rparr>"]
  by simp

end
